theory Spec2Isabelle
  imports Main "HOL-Library.FSet" "HOL-Library.Sublist"
begin

section \<open>Python strings and POSIX paths\<close>

text \<open>
  The script refuses to run unless \<^verbatim>\<open>sys.platform\<close> is \<^verbatim>\<open>darwin\<close>, so \<^verbatim>\<open>os.path\<close> is
  \<^verbatim>\<open>posixpath\<close> throughout. A Python \<^verbatim>\<open>str\<close> is modelled as a \<^typ>\<open>string\<close> whose
  characters are the code points below 256; the functions below follow the
  standard library on such strings.
\<close>

text \<open>\<^verbatim>\<open>str.isspace\<close> on one character: the white space code points below 256.\<close>

definition isspace :: "char \<Rightarrow> bool" where
  "isspace c = (of_char c \<in> {9, 10, 11, 12, 13, 28, 29, 30, 31, 32, 133, 160 :: nat})"

definition lstrip :: "string \<Rightarrow> string" where
  "lstrip s = dropWhile isspace s"

definition rstrip :: "string \<Rightarrow> string" where
  "rstrip s = rev (dropWhile isspace (rev s))"

text \<open>\<^verbatim>\<open>s.strip()\<close>: leading and trailing white space removed.\<close>

definition strip :: "string \<Rightarrow> string" where
  "strip s = rstrip (lstrip s)"

text \<open>\<^verbatim>\<open>str(i)\<close> for a non-negative integer: its decimal digits, most significant first.\<close>

definition digit_chr :: "nat \<Rightarrow> char" where
  "digit_chr d = ''0123456789'' ! d"

fun str_nat :: "nat \<Rightarrow> string" where
  "str_nat n = (if n < 10 then [digit_chr n] else str_nat (n div 10) @ [digit_chr (n mod 10)])"

declare str_nat.simps [simp del]

text \<open>\<^verbatim>\<open>s.rfind(c)\<close>: the highest index of \<open>c\<close> in \<open>s\<close>, or \<open>-1\<close>.\<close>

fun rfind :: "char \<Rightarrow> string \<Rightarrow> int" where
  "rfind c [] = - 1"
| "rfind c (x # xs) =
     (let r = rfind c xs in if 0 \<le> r then r + 1 else if x = c then 0 else - 1)"

text \<open>
  \<^verbatim>\<open>os.path.splitext\<close>. The extension starts at the last dot of the last path
  component; leading dots of that component belong to the root, so the loop
  looks for a character other than a dot before the last dot:
  \<^verbatim>\<open>
    sepIndex = p.rfind(sep)
    dotIndex = p.rfind(extsep)
    if dotIndex > sepIndex:
        filenameIndex = sepIndex + 1
        while filenameIndex < dotIndex:
            if p[filenameIndex:filenameIndex+1] != extsep:
                return p[:dotIndex], p[dotIndex:]
            filenameIndex += 1
    return p, p[:0]
  \<close>
\<close>

function splitext_loop :: "string \<Rightarrow> nat \<Rightarrow> nat \<Rightarrow> string \<times> string" where
  "splitext_loop p filenameIndex dotIndex =
     (if filenameIndex < dotIndex then
        (if p ! filenameIndex \<noteq> CHR ''.'' then (take dotIndex p, drop dotIndex p)
         else splitext_loop p (filenameIndex + 1) dotIndex)
      else (p, []))"
  by pat_completeness auto
termination
  by (relation "measure (\<lambda>(p, filenameIndex, dotIndex). dotIndex - filenameIndex)") auto

declare splitext_loop.simps [simp del]

definition splitext :: "string \<Rightarrow> string \<times> string" where
  "splitext p =
     (let sepIndex = rfind CHR ''/'' p;
          dotIndex = rfind CHR ''.'' p
      in if sepIndex < dotIndex then splitext_loop p (nat (sepIndex + 1)) (nat dotIndex)
         else (p, []))"

definition startswith_sep :: "string \<Rightarrow> bool" where
  "startswith_sep b = (case b of [] \<Rightarrow> False | c # _ \<Rightarrow> c = CHR ''/'')"

definition endswith_sep :: "string \<Rightarrow> bool" where
  "endswith_sep a = (a \<noteq> [] \<and> last a = CHR ''/'')"

text \<open>
  \<^verbatim>\<open>os.path.join(a, b)\<close>: an absolute \<open>b\<close> replaces \<open>a\<close>; otherwise \<open>b\<close> is appended,
  after a separator unless \<open>a\<close> is empty or already ends with one.
\<close>

definition path_join :: "string \<Rightarrow> string \<Rightarrow> string" where
  "path_join a b =
     (if startswith_sep b then b
      else if a = [] \<or> endswith_sep a then a @ b
      else a @ ''/'' @ b)"

text \<open>\<^verbatim>\<open>os.path.basename(p)\<close>: what follows the last separator.\<close>

definition basename :: "string \<Rightarrow> string" where
  "basename p = drop (nat (rfind CHR ''/'' p + 1)) p"

section \<open>Output path resolution: \<^verbatim>\<open>safe_save_path\<close>\<close>

text \<open>The candidate \<^verbatim>\<open>f"{root}-{i}{ext}"\<close> of the loop body.\<close>

definition suffixed :: "string \<Rightarrow> nat \<Rightarrow> string \<Rightarrow> string" where
  "suffixed root i ext = root @ ''-'' @ str_nat i @ ext"

text \<open>
  Decimal numerals of different numbers differ, so the candidates of the loop
  are pairwise different; the termination of the loop rests on it.
\<close>

lemma digit_chr_code: "d < 10 \<Longrightarrow> of_char (digit_chr d) = 48 + d"
proof -
  assume "d < 10"
  then have "d \<in> {0, 1, 2, 3, 4, 5, 6, 7, 8, 9}" by auto
  then show ?thesis by (auto simp: digit_chr_def)
qed

lemma digit_chr_inj: "a < 10 \<Longrightarrow> b < 10 \<Longrightarrow> digit_chr a = digit_chr b \<Longrightarrow> a = b"
  by (metis digit_chr_code add_left_cancel)

lemma str_nat_nonempty: "str_nat n \<noteq> []"
  by (subst str_nat.simps) simp

lemma str_nat_inj: "str_nat m = str_nat n \<Longrightarrow> m = n"
proof (induction m arbitrary: n rule: str_nat.induct)
  case (1 m)
  show ?case
  proof (cases "m < 10")
    case True
    show ?thesis
    proof (cases "n < 10")
      case n: True
      from "1.prems" True n have "digit_chr m = digit_chr n"
        by (simp add: str_nat.simps)
      with True n show ?thesis by (rule digit_chr_inj)
    next
      case n: False
      from "1.prems" True n have "[digit_chr m] = str_nat (n div 10) @ [digit_chr (n mod 10)]"
        by (simp add: str_nat.simps[of m] str_nat.simps[of n])
      then show ?thesis using str_nat_nonempty[of "n div 10"] by simp
    qed
  next
    case False
    show ?thesis
    proof (cases "n < 10")
      case n: True
      from "1.prems" False n have "str_nat (m div 10) @ [digit_chr (m mod 10)] = [digit_chr n]"
        by (simp add: str_nat.simps[of m] str_nat.simps[of n])
      then show ?thesis using str_nat_nonempty[of "m div 10"] by simp
    next
      case n: False
      from "1.prems" False n
      have eq: "str_nat (m div 10) @ [digit_chr (m mod 10)] = str_nat (n div 10) @ [digit_chr (n mod 10)]"
        by (simp add: str_nat.simps[of m] str_nat.simps[of n])
      then have "str_nat (m div 10) = str_nat (n div 10)" by simp
      with "1.IH" False have d: "m div 10 = n div 10" by blast
      from eq have "digit_chr (m mod 10) = digit_chr (n mod 10)" by simp
      then have "m mod 10 = n mod 10" by (intro digit_chr_inj) simp_all
      with d show ?thesis by (metis div_mult_mod_eq)
    qed
  qed
qed

lemma suffixed_inj: "suffixed root i ext = suffixed root j ext \<Longrightarrow> i = j"
  by (simp add: suffixed_def str_nat_inj)

lemma finite_suffixed: "finite {j. suffixed root j ext |\<in>| fs}"
proof -
  have "inj (\<lambda>j. suffixed root j ext)" by (rule injI) (rule suffixed_inj)
  then have "finite ((\<lambda>j. suffixed root j ext) -` fset fs)" by (intro finite_vimageI) simp_all
  moreover have "{j. suffixed root j ext |\<in>| fs} = (\<lambda>j. suffixed root j ext) -` fset fs" by auto
  ultimately show ?thesis by simp
qed

text \<open>
  The file system is the finite set \<open>fs\<close> of the paths that exist;
  \<^verbatim>\<open>os.path.exists(candidate)\<close> is membership in it.
  \<^verbatim>\<open>
    i = 1
    while os.path.exists(candidate):
        candidate = f"{root}-{i}{ext}"
        i += 1
    return candidate
  \<close>
  The loop returns its final state, the candidate and the counter \<open>i\<close>, so
  that the number of iterations it made can be read off. Each iteration either
  finds a fresh candidate or uses up one of the finitely many existing paths
  of the form \<open>root-j+ext\<close> with \<open>j \<ge> i\<close>.
\<close>

function save_loop :: "string fset \<Rightarrow> string \<Rightarrow> string \<Rightarrow> string \<Rightarrow> nat \<Rightarrow> string \<times> nat" where
  "save_loop fs root ext candidate i =
     (if candidate |\<in>| fs then save_loop fs root ext (suffixed root i ext) (i + 1)
      else (candidate, i))"
  by pat_completeness auto
termination
proof (relation "measure (\<lambda>(fs, root, ext, candidate, i).
          2 * card {j. i \<le> j \<and> suffixed root j ext |\<in>| fs} + (if candidate |\<in>| fs then 1 else 0))")
  show "wf (measure (\<lambda>(fs, root, ext, candidate, i).
          2 * card {j. i \<le> j \<and> suffixed root j ext |\<in>| fs} + (if candidate |\<in>| fs then 1 else 0)))"
    by simp
next
  fix fs :: "string fset" and root ext candidate :: string and i :: nat
  assume "candidate |\<in>| fs"
  let ?A = "{j. i \<le> j \<and> suffixed root j ext |\<in>| fs}"
  let ?B = "{j. i + 1 \<le> j \<and> suffixed root j ext |\<in>| fs}"
  have fin: "finite ?A" by (rule finite_subset[OF _ finite_suffixed[of root ext fs]]) auto
  have sub: "?B \<subseteq> ?A" by auto
  show "((fs, root, ext, suffixed root i ext, i + 1), (fs, root, ext, candidate, i)) \<in>
        measure (\<lambda>(fs, root, ext, candidate, i).
          2 * card {j. i \<le> j \<and> suffixed root j ext |\<in>| fs} + (if candidate |\<in>| fs then 1 else 0))"
  proof (cases "suffixed root i ext |\<in>| fs")
    case True
    then have "i \<in> ?A" "i \<notin> ?B" by auto
    with sub have "?B \<subset> ?A" by blast
    with fin have "card ?B < card ?A" by (rule psubset_card_mono)
    with \<open>candidate |\<in>| fs\<close> True show ?thesis by simp
  next
    case False
    from sub fin have "card ?B \<le> card ?A" by (simp add: card_mono)
    with \<open>candidate |\<in>| fs\<close> False show ?thesis by simp
  qed
qed

declare save_loop.simps [simp del]

text \<open>
  \<^verbatim>\<open>name = base_name.strip() or "Untitled music video"\<close>
\<close>

definition save_name :: "string \<Rightarrow> string" where
  "save_name base_name = (let s = strip base_name in if s \<noteq> [] then s else ''Untitled music video'')"

text \<open>\<^verbatim>\<open>candidate = os.path.join(desktop, f"{name}{extension}")\<close>, where \<open>desktop\<close> is
  the value of \<^verbatim>\<open>os.path.expanduser("~/Desktop")\<close>, a parameter of the model.\<close>

definition first_candidate :: "string \<Rightarrow> string \<Rightarrow> string \<Rightarrow> string" where
  "first_candidate desktop base_name extension = path_join desktop (save_name base_name @ extension)"

definition safe_save_path_loop ::
  "string fset \<Rightarrow> string \<Rightarrow> string \<Rightarrow> string \<Rightarrow> string \<times> nat" where
  "safe_save_path_loop fs desktop base_name extension =
     (let candidate = first_candidate desktop base_name extension;
          (root, ext) = splitext candidate
      in save_loop fs root ext candidate 1)"

definition safe_save_path :: "string fset \<Rightarrow> string \<Rightarrow> string \<Rightarrow> string \<Rightarrow> string" where
  "safe_save_path fs desktop base_name extension =
     fst (safe_save_path_loop fs desktop base_name extension)"

section \<open>Media clips\<close>

text \<open>
  Durations are seconds. Python holds them as IEEE doubles and rounds every
  sum and quotient; the model computes with exact rational numbers. The two
  agree on whether a total of non-negative durations is positive, which is all
  the properties below use. They can differ in the loop count and in the
  duration of a concatenation (durations 0.31 and 3.99 with an audio of 30.1
  seconds give 8 loops in doubles and 7 in exact arithmetic), so nothing below
  is stated about those values.
\<close>

text \<open>
  \<^verbatim>\<open>x or 0\<close> for a number \<open>x\<close>: zero is falsy, every other number is itself.
  Every clip of the model has a duration, as in the data model of the
  specification; a clip whose duration is \<^verbatim>\<open>None\<close> is not part of it.
\<close>

definition or_zero :: "rat \<Rightarrow> rat" where
  "or_zero x = (if x \<noteq> 0 then x else 0)"

text \<open>
  The clips the script handles, as the media library builds them:
  \<^item> \<^verbatim>\<open>VideoFileClip(p).without_audio()\<close>, with the number of its reader, its
    path and the duration the library reports;
  \<^item> \<^verbatim>\<open>concatenate_videoclips(seq, method="compose")\<close>;
  \<^item> \<^verbatim>\<open>clip.subclip(t_start, t_end)\<close>;
  \<^item> \<^verbatim>\<open>clip.set_audio(audio)\<close>, with the path of the audio file.
  The library is not part of the repository. Its contract is taken as the
  specification gives it: a concatenation lasts as long as its parts together,
  a subclip from \<open>t_start\<close> to \<open>t_end\<close> lasts \<open>t_end - t_start\<close>, and attaching
  audio leaves the duration as it is.
\<close>

datatype clip =
    VideoFileClip nat string rat
  | Concatenated "clip list"
  | Subclip clip rat rat
  | SetAudio clip string

fun duration :: "clip \<Rightarrow> rat" where
  "duration (VideoFileClip h p d) = d"
| "duration (Concatenated cs) = sum_list (map duration cs)"
| "duration (Subclip c t_start t_end) = t_end - t_start"
| "duration (SetAudio c a) = duration c"

text \<open>The file of a loaded clip.\<close>

fun clip_path :: "clip \<Rightarrow> string" where
  "clip_path (VideoFileClip h p d) = p"
| "clip_path c = []"

text \<open>
  The readers a run opens: one for each loaded video clip, numbered in loading
  order, and one for the audio clip. \<^verbatim>\<open>clip.close()\<close> releases the reader of a
  loaded clip; a clip built from others has no reader of its own, and one with
  audio attached closes that audio.
\<close>

datatype handle = VideoHandle nat | AudioHandle

fun close_clip :: "clip \<Rightarrow> handle list" where
  "close_clip (VideoFileClip h p d) = [VideoHandle h]"
| "close_clip (Concatenated cs) = []"
| "close_clip (Subclip c t_start t_end) = close_clip c"
| "close_clip (SetAudio c a) = close_clip c @ [AudioHandle]"

text \<open>\<^verbatim>\<open>xs * n\<close> for a list \<open>xs\<close> and an integer \<open>n\<close>; empty when \<open>n \<le> 0\<close>.\<close>

definition list_times :: "'a list \<Rightarrow> int \<Rightarrow> 'a list" where
  "list_times xs n = concat (replicate (nat n) xs)"

text \<open>\<^verbatim>\<open>s.lower()\<close>, on the code points below 256.\<close>

definition lower_chr :: "char \<Rightarrow> char" where
  "lower_chr c =
     (let n = of_char c :: nat
      in if (65 \<le> n \<and> n \<le> 90) \<or> (192 \<le> n \<and> n \<le> 222 \<and> n \<noteq> 215)
         then char_of (n + 32) else c)"

definition lower :: "string \<Rightarrow> string" where
  "lower s = map lower_chr s"

text \<open>
  \<^verbatim>\<open>shlex.quote(s)\<close>: a string of letters, digits and the characters
  \<^verbatim>\<open>_@%+=:,./-\<close> is left as it is; any other string is put between single
  quotes, each single quote inside it written as \<^verbatim>\<open>'"'"'\<close>; the empty string
  becomes two single quotes.
\<close>

definition shlex_safe :: "char \<Rightarrow> bool" where
  "shlex_safe c =
     (let n = of_char c :: nat
      in (48 \<le> n \<and> n \<le> 57) \<or> (65 \<le> n \<and> n \<le> 90) \<or> (97 \<le> n \<and> n \<le> 122) \<or>
         c \<in> set ''_@%+=:,./-'')"

definition shlex_quote :: "string \<Rightarrow> string" where
  "shlex_quote s =
     (if s = [] then [CHR 0x27, CHR 0x27]
      else if list_all shlex_safe s then s
      else [CHR 0x27] @
           concat (map (\<lambda>c. if c = CHR 0x27
                             then [CHR 0x27, CHR 0x22, CHR 0x27, CHR 0x22, CHR 0x27]
                             else [c]) s) @
           [CHR 0x27])"

section \<open>The workflow: \<^verbatim>\<open>main\<close>\<close>

text \<open>
  What the run gets from outside:
  \<^item> the platform and the answers of the two file dialogs;
  \<^item> the line each \<^verbatim>\<open>input\<close> call reads, or \<open>None\<close> when standard input is at
    its end, where \<^verbatim>\<open>input\<close> raises \<^verbatim>\<open>EOFError\<close>;
  \<^item> what the media library does with each file: an exception, with its text,
    or a clip of some duration;
  \<^item> the desktop directory and the existing files;
  \<^item> whether \<^verbatim>\<open>write_videofile\<close> raises, and whether it has created the output
    file by the time it raises.

  Both \<^verbatim>\<open>input\<close> calls stand outside every \<^verbatim>\<open>try\<close>, so their \<^verbatim>\<open>EOFError\<close> leaves
  \<^verbatim>\<open>main\<close> uncaught. The calls of the media library and of the preview command
  that stand outside the \<^verbatim>\<open>try\<close> blocks are taken to return, as their
  contract in the specification has it. The progress bar and the directory a
  dialog starts in are not modelled.
\<close>

record env =
  platform :: string
  video_dialog :: "string list"
  proceed_input :: "string option"
  video_file :: "string \<Rightarrow> string + rat"
  audio_dialog :: string
  audio_file :: "string \<Rightarrow> string + rat"
  name_input :: "string option"
  desktop_dir :: string
  files :: "string fset"
  export_error :: "string option"
  partial_output :: bool

text \<open>
  What a run writes to standard output. \<open>Line s\<close> is \<^verbatim>\<open>print(s)\<close> and
  \<open>Prompt s\<close> the prompt of \<^verbatim>\<open>input(s)\<close>. The other messages stand for
  lines whose text is not modelled: the list of the selected files, with the
  number of files and their base names, and the two lines that format a
  duration with two decimals.
\<close>

datatype message =
    Line string
  | Prompt string
  | Selected nat "string list"
  | Total_video_length rat
  | Audio_info string rat

text \<open>
  The effects of a run: what was printed, the readers opened and closed, the
  calls of \<^verbatim>\<open>write_videofile\<close> (path and clip), the arguments handed to the
  preview command \<^verbatim>\<open>qlmanage -p\<close>, and the files the run has put on disk,
  complete or partial. The script has no statement that removes a file.
\<close>

record state =
  printed :: "message list"
  opened :: "handle list"
  closed :: "handle list"
  exports :: "(string \<times> clip) list"
  previews :: "string list"
  created :: "string list"

definition start :: state where
  "start = \<lparr>printed = [], opened = [], closed = [], exports = [], previews = [],
             created = []\<rparr>"

definition print :: "message \<Rightarrow> state \<Rightarrow> state" where
  "print m st = st\<lparr>printed := printed st @ [m]\<rparr>"

text \<open>The readers still open at the end of a run.\<close>

definition leaked :: "state \<Rightarrow> handle list" where
  "leaked st = filter (\<lambda>h. h \<notin> set (closed st)) (opened st)"

text \<open>
  \<^verbatim>\<open>pick_files\<close>, on the answer of the dialog: the tuple of paths of
  \<^verbatim>\<open>askopenfilenames\<close>, or the one path of \<^verbatim>\<open>askopenfilename\<close>, which is empty
  when the user cancels.
  \<^verbatim>\<open>
    paths = list(paths)
    if not paths:
        print("Cancelled by user.")
        return []
    print(f"Selected {len(paths)} file(s):")
    for p in paths: print(... + os.path.basename(p))
    return paths
  \<close>
  \<open>pick_files\<close> is the call with \<^verbatim>\<open>allow_multiple=True\<close>, \<open>pick_file\<close> the one with
  \<^verbatim>\<open>allow_multiple=False\<close>, where \<^verbatim>\<open>paths = (path,) if path else ()\<close>.
\<close>

definition pick_files :: "string list \<Rightarrow> state \<Rightarrow> string list \<times> state" where
  "pick_files paths st =
     (if paths = [] then ([], print (Line ''Cancelled by user.'') st)
      else (paths, print (Selected (length paths) (map basename paths)) st))"

definition pick_file :: "string \<Rightarrow> state \<Rightarrow> string list \<times> state" where
  "pick_file path st = pick_files (if path \<noteq> [] then [path] else []) st"

text \<open>
  The loading loop.
  \<^verbatim>\<open>
    for p in tqdm(video_paths, desc="Videos"):
        try:
            c = VideoFileClip(p).without_audio()
            clips.append(c)
            total_dur += c.duration or 0
        except Exception as e:
            print(f"\nError loading {os.path.basename(p)} -> {e}")
            return
  \<close>
  \<open>Inl\<close> is the return from inside the loop, with the state at that point.
\<close>

fun load_videos ::
  "env \<Rightarrow> string list \<Rightarrow> clip list \<Rightarrow> rat \<Rightarrow> state \<Rightarrow> state + clip list \<times> rat \<times> state" where
  "load_videos env [] clips total_dur st = Inr (clips, total_dur, st)"
| "load_videos env (p # ps) clips total_dur st =
     (case video_file env p of
        Inl e \<Rightarrow> Inl (print (Line (CHR 0x0A # ''Error loading '' @ basename p @ '' -> '' @ e)) st)
      | Inr d \<Rightarrow>
          load_videos env ps (clips @ [VideoFileClip (length clips) p d]) (total_dur + or_zero d)
            (st\<lparr>opened := opened st @ [VideoHandle (length clips)]\<rparr>))"

text \<open>\<^verbatim>\<open>loops = max(1, math.ceil(audio_dur / total_dur))\<close>\<close>

definition loop_count :: "rat \<Rightarrow> rat \<Rightarrow> int" where
  "loop_count audio_dur total_dur = max 1 \<lceil>audio_dur / total_dur\<rceil>"

text \<open>
  \<^verbatim>\<open>
    final_video = concatenate_videoclips(seq, method="compose")
    if final_video.duration > audio_dur:
        final_video = final_video.subclip(0, audio_dur)
  \<close>
\<close>

definition fit_to_audio :: "clip list \<Rightarrow> rat \<Rightarrow> clip" where
  "fit_to_audio seq audio_dur =
     (let final_video = Concatenated seq
      in if duration final_video > audio_dur then Subclip final_video 0 audio_dur
         else final_video)"

datatype outcome =
  Cancelled | LoadError | EmptyContentError | ExportError | Done | Uncaught

text \<open>
  \<^verbatim>\<open>main\<close> is given in three parts, in the order of the source. An outcome names
  the way a run leaves \<^verbatim>\<open>main\<close>: by the \<^verbatim>\<open>return\<close> after a cancelled selection or
  a declined confirmation, after a video or audio that fails to load, after
  empty video content, after a failed export; by reaching the end; or by an
  exception that nothing catches.

  The last part goes from the output name to the end, once the videos and the
  audio are loaded: output name, loop count, sequence, export in a \<^verbatim>\<open>try\<close>,
  \<^verbatim>\<open>
    try:
        final.write_videofile(output_path, ...)
    except Exception as e:
        print(f"Export error: {e}")
        return
  \<close>
  the preview \<^verbatim>\<open>subprocess.run(["qlmanage", "-p", shlex.quote(output_path)], ...)\<close>,
  and the cleanup
  \<^verbatim>\<open>
    for c in clips:
        c.close()
    audio.close()
    final_video.close()
    final.close()
  \<close>
\<close>

definition export_stage ::
  "env \<Rightarrow> clip list \<Rightarrow> rat \<Rightarrow> string \<Rightarrow> rat \<Rightarrow> state \<Rightarrow> outcome \<times> state" where
  "export_stage env clips total_dur audio_path audio_dur st0 =
     (let audio_name = fst (splitext (basename audio_path));
          default_name = audio_name @ '' music video'';
          st = print (Line (CHR 0x0A # ''Suggested name: '' @ default_name @ ''.mp4'')) st0;
          st = print (Prompt ''Enter custom name (or press Enter for default): '') st
      in case name_input env of
           None \<Rightarrow> (Uncaught, st)
         | Some line \<Rightarrow>
             (let user_input = strip line;
                  export_name = (if user_input \<noteq> [] then user_input else default_name);
                  output_path =
                    safe_save_path (files env) (desktop_dir env) export_name ''.mp4'';
                  st = print (Line (''Saving to: '' @ output_path)) st;
                  loops = loop_count audio_dur total_dur;
                  st = (if loops > 1
                        then print (Line (''Looping video '' @ str_nat (nat loops) @ '' times'')) st
                        else st);
                  seq = list_times clips loops;
                  final_video = fit_to_audio seq audio_dur;
                  final = SetAudio final_video audio_path;
                  st = print (Line (CHR 0x0A # ''Exporting...'')) st;
                  st = st\<lparr>exports := exports st @ [(output_path, final)]\<rparr>
              in case export_error env of
                   Some e \<Rightarrow>
                     (let st = (if partial_output env
                                then st\<lparr>created := created st @ [output_path]\<rparr> else st)
                      in (ExportError, print (Line (''Export error: '' @ e)) st))
                 | None \<Rightarrow>
                     (let st = st\<lparr>created := created st @ [output_path]\<rparr>;
                          st = print (Line (CHR 0x0A # ''Export complete!'')) st;
                          st = st\<lparr>previews := previews st @ [shlex_quote output_path]\<rparr>;
                          st = st\<lparr>closed := closed st @ concat (map close_clip clips)\<rparr>;
                          st = st\<lparr>closed := closed st @ [AudioHandle]\<rparr>;
                          st = st\<lparr>closed := closed st @ close_clip final_video\<rparr>;
                          st = st\<lparr>closed := closed st @ close_clip final\<rparr>
                      in (Done,
                          print (Line (CHR 0x0A # ''Done! Your music video is on Desktop.'')) st))))"

text \<open>
  The middle part goes from the audio selection on, once the videos are loaded
  and their total duration is positive.
  \<^verbatim>\<open>
    audio_paths = pick_files("Select ONE audio file", False)
    if not audio_paths:
        return
    audio_path = audio_paths[0]
    try:
        audio = AudioFileClip(audio_path)
        audio_dur = audio.duration or 0
    except Exception as e:
        print(f"Audio error: {e}")
        return
  \<close>
\<close>

definition audio_stage :: "env \<Rightarrow> clip list \<Rightarrow> rat \<Rightarrow> state \<Rightarrow> outcome \<times> state" where
  "audio_stage env clips total_dur st0 =
     (let (audio_paths, st) = pick_file (audio_dialog env) st0
      in if audio_paths = [] then (Cancelled, st)
         else
           (let audio_path = hd audio_paths
            in case audio_file env audio_path of
                 Inl e \<Rightarrow> (LoadError, print (Line (''Audio error: '' @ e)) st)
               | Inr d \<Rightarrow>
                   (let st = st\<lparr>opened := opened st @ [AudioHandle]\<rparr>;
                        audio_dur = or_zero d;
                        st = print (Audio_info (basename audio_path) audio_dur) st
                    in export_stage env clips total_dur audio_path audio_dur st)))"

text \<open>
  The first part: banner, video selection, confirmation, loading, and the
  check of the total duration.
  \<^verbatim>\<open>
    if input(f"\\nProceed with {len(video_paths)} video(s)? (y/n): ").lower() != 'y':
        return
    ...
    if total_dur <= 0:
        print("Video content is empty.")
        return
  \<close>
\<close>

definition main :: "env \<Rightarrow> outcome \<times> state" where
  "main env =
     (let st = print (Line (CHR 0x0A # replicate 70 CHR ''='')) start;
          st = print (Line ''   VIDEO + AUDIO STITCHER - TKINTER VERSION'') st;
          st = print (Line (replicate 70 CHR ''='' @ [CHR 0x0A])) st;
          (video_paths, st) = pick_files (video_dialog env) st
      in if video_paths = [] then (Cancelled, st)
         else
           (let st = print (Prompt (CHR 0x0A # ''Proceed with '' @ str_nat (length video_paths) @
                                     '' video(s)? (y/n): '')) st
            in case proceed_input env of
                 None \<Rightarrow> (Uncaught, st)
               | Some answer \<Rightarrow>
                   if lower answer \<noteq> ''y'' then (Cancelled, st)
                   else
                     (case load_videos env video_paths [] 0
                             (print (Line (CHR 0x0A # ''Loading videos...'')) st) of
                        Inl st \<Rightarrow> (LoadError, st)
                      | Inr (clips, total_dur, st) \<Rightarrow>
                          if total_dur \<le> 0
                          then (EmptyContentError, print (Line ''Video content is empty.'') st)
                          else audio_stage env clips total_dur
                                 (print (Total_video_length total_dur) st))))"


section \<open>Example runs\<close>

text \<open>
  Scenario A of the specification: two videos of 10 seconds each and an audio
  track of 25 seconds, on macOS, with an empty desktop and no custom name; and
  variants of it in which the second video fails to load, the audio fails to
  load, the export raises (leaving nothing, or a partial file), every video has
  duration 0 (scenario E), and standard input ends at the confirmation.
\<close>

definition scenario_A :: env where
  "scenario_A =
     \<lparr>platform = ''darwin'', video_dialog = [''/v/a.mp4'', ''/v/b.mp4''],
      proceed_input = Some ''y'', video_file = (\<lambda>p. Inr 10),
      audio_dialog = ''/m/song.mp3'', audio_file = (\<lambda>p. Inr 25), name_input = Some [],
      desktop_dir = ''/h/Desktop'', files = {||}, export_error = None,
      partial_output = False\<rparr>"

definition video_b_fails :: env where
  "video_b_fails =
     scenario_A\<lparr>video_file := (\<lambda>p. if p = ''/v/b.mp4'' then Inl ''boom'' else Inr 10)\<rparr>"

definition audio_fails :: env where
  "audio_fails = scenario_A\<lparr>audio_file := (\<lambda>p. Inl ''boom'')\<rparr>"

definition export_fails :: env where
  "export_fails = scenario_A\<lparr>export_error := Some ''boom''\<rparr>"

definition export_fails_midway :: env where
  "export_fails_midway = scenario_A\<lparr>export_error := Some ''boom'', partial_output := True\<rparr>"

definition scenario_E :: env where
  "scenario_E = scenario_A\<lparr>video_file := (\<lambda>p. Inr 0)\<rparr>"


text \<open>The equations that evaluate path resolution on given strings.\<close>

lemmas path_eval =
  safe_save_path_def safe_save_path_loop_def first_candidate_def save_name_def strip_def lstrip_def rstrip_def
  isspace_def path_join_def startswith_sep_def endswith_sep_def splitext_def
  splitext_loop.simps save_loop.simps suffixed_def str_nat.simps digit_chr_def basename_def

section \<open>Properties of path resolution\<close>

lemma save_loop_fresh_candidate:
  "candidate |\<notin>| fs \<Longrightarrow> save_loop fs root ext candidate i = (candidate, i)"
  by (subst save_loop.simps) simp

lemma save_loop_spec:
  "save_loop fs root ext candidate i = (r, n) \<Longrightarrow>
   r |\<notin>| fs \<and>
   (if candidate |\<in>| fs
    then i < n \<and> r = suffixed root (n - 1) ext \<and>
         (\<forall>j. i \<le> j \<and> j < n - 1 \<longrightarrow> suffixed root j ext |\<in>| fs)
    else n = i \<and> r = candidate)"
proof (induction fs root ext candidate i rule: save_loop.induct)
  case (1 fs root ext candidate i)
  show ?case
  proof (cases "candidate |\<in>| fs")
    case False
    with "1.prems" show ?thesis by (simp add: save_loop_fresh_candidate)
  next
    case True
    with "1.prems" have step: "save_loop fs root ext (suffixed root i ext) (i + 1) = (r, n)"
      by (subst (asm) save_loop.simps) simp
    note IH = "1.IH"[OF True step]
    show ?thesis
    proof (cases "suffixed root i ext |\<in>| fs")
      case False
      with IH True show ?thesis by auto
    next
      case next_exists: True
      from IH have fresh: "r |\<notin>| fs" by (rule conjunct1)
      from IH next_exists have n: "i + 1 < n" "r = suffixed root (n - 1) ext"
        and rest: "\<forall>j. i + 1 \<le> j \<and> j < n - 1 \<longrightarrow> suffixed root j ext |\<in>| fs"
        by (simp_all del: One_nat_def)
      have "\<forall>j. i \<le> j \<and> j < n - 1 \<longrightarrow> suffixed root j ext |\<in>| fs"
      proof (intro allI impI)
        fix j assume "i \<le> j \<and> j < n - 1"
        then consider "j = i" | "i + 1 \<le> j \<and> j < n - 1" by linarith
        then show "suffixed root j ext |\<in>| fs"
          using next_exists rest by cases auto
      qed
      with n fresh True show ?thesis by simp
    qed
  qed
qed

lemma rfind_lower: "- 1 \<le> rfind c s"
  by (induction s) (auto simp: Let_def)

lemma rfind_upper: "rfind c s < int (length s)"
  by (induction s) (auto simp: Let_def)

lemma rfind_notin: "c \<notin> set s \<Longrightarrow> rfind c s = - 1"
  by (induction s) (auto simp: Let_def)

lemma rfind_in: "c \<in> set s \<Longrightarrow> 0 \<le> rfind c s"
  by (induction s) (auto simp: Let_def)

lemma rfind_append_in: "c \<in> set t \<Longrightarrow> rfind c (s @ t) = int (length s) + rfind c t"
  by (induction s) (auto simp: Let_def dest: rfind_in)

lemma rfind_append_notin: "c \<notin> set t \<Longrightarrow> rfind c (s @ t) = rfind c s"
  by (induction s) (auto simp: Let_def rfind_notin)

lemma splitext_loop_spec:
  "splitext_loop p i n =
     (if \<exists>k. i \<le> k \<and> k < n \<and> p ! k \<noteq> CHR ''.'' then (take n p, drop n p) else (p, []))"
proof (induction p i n rule: splitext_loop.induct)
  case (1 p i n)
  show ?case
  proof (cases "i < n")
    case False
    then show ?thesis by (subst splitext_loop.simps) auto
  next
    case True
    show ?thesis
    proof (cases "p ! i \<noteq> CHR ''.''")
      case nd: True
      with True have "\<exists>k. i \<le> k \<and> k < n \<and> p ! k \<noteq> CHR ''.''" by auto
      with True nd show ?thesis by (subst splitext_loop.simps) simp
    next
      case False
      then have dot: "p ! i = CHR ''.''" by simp
      have "(\<exists>k. i \<le> k \<and> k < n \<and> p ! k \<noteq> CHR ''.'') = (\<exists>k. i + 1 \<le> k \<and> k < n \<and> p ! k \<noteq> CHR ''.'')"
        by (metis dot Suc_eq_plus1 Suc_leI le_neq_implies_less Suc_leD)
      with "1.IH"[OF True] dot True show ?thesis
        by (subst splitext_loop.simps) simp
    qed
  qed
qed

lemma splitext_concat: "fst (splitext p) @ snd (splitext p) = p"
  by (simp add: splitext_def Let_def splitext_loop_spec)

lemma splitext_regular:
  assumes e: "CHR ''.'' \<notin> set e" "CHR ''/'' \<notin> set e"
    and r: "\<exists>c\<in>set (basename r). c \<noteq> CHR ''.''"
  shows "splitext (r @ CHR ''.'' # e) = (r, CHR ''.'' # e)"
proof -
  let ?p = "r @ CHR ''.'' # e"
  have dot: "rfind CHR ''.'' ?p = int (length r)"
    using e(1) by (simp add: rfind_append_in Let_def rfind_notin)
  have sep: "rfind CHR ''/'' ?p = rfind CHR ''/'' r"
    using e(2) by (simp add: rfind_append_notin)
  from r obtain c where c: "c \<in> set (drop (nat (rfind CHR ''/'' r + 1)) r)" "c \<noteq> CHR ''.''"
    by (auto simp: basename_def)
  then obtain k where k: "k < length r - nat (rfind CHR ''/'' r + 1)"
      "drop (nat (rfind CHR ''/'' r + 1)) r ! k = c"
    by (auto simp: in_set_conv_nth)
  let ?m = "nat (rfind CHR ''/'' r + 1) + k"
  from k have m: "?m < length r" "r ! ?m = c" by auto
  then have "nat (rfind CHR ''/'' r + 1) \<le> ?m \<and> ?m < length r \<and> ?p ! ?m \<noteq> CHR ''.''"
    using c(2) by (simp add: nth_append)
  then have ex: "\<exists>k. nat (rfind CHR ''/'' r + 1) \<le> k \<and> k < length r \<and> ?p ! k \<noteq> CHR ''.''"
    by blast
  have "rfind CHR ''/'' r < int (length r)" by (rule rfind_upper)
  with dot sep ex show ?thesis
    by (simp add: splitext_def Let_def splitext_loop_spec)
qed

lemma path_join_append: "b \<noteq> [] \<Longrightarrow> path_join a (b @ c) = path_join a b @ c"
  by (cases b) (auto simp: path_join_def startswith_sep_def)

lemma suffixed_not_first:
  assumes "splitext candidate = (root, ext)"
  shows "suffixed root i ext \<noteq> candidate"
proof
  assume eq: "suffixed root i ext = candidate"
  from assms splitext_concat[of candidate] have "root @ ext = candidate" by simp
  with eq have "root @ (''-'' @ str_nat i @ ext) = root @ ext" by (simp add: suffixed_def)
  then have "''-'' @ str_nat i @ ext = ext" by (simp only: same_append_eq)
  then have "length (''-'' @ str_nat i @ ext) = length ext" by simp
  then show False by simp
qed

lemma safe_save_path_loop_spec:
  assumes sp: "splitext (first_candidate desktop base_name extension) = (root, ext)"
    and run: "safe_save_path_loop fs desktop base_name extension = (r, n)"
  shows "r |\<notin>| fs \<and>
   (if first_candidate desktop base_name extension |\<in>| fs
    then 1 < n \<and> r = suffixed root (n - 1) ext \<and>
         (\<forall>j. 1 \<le> j \<and> j < n - 1 \<longrightarrow> suffixed root j ext |\<in>| fs)
    else n = 1 \<and> r = first_candidate desktop base_name extension)"
proof -
  from sp run have "save_loop fs root ext (first_candidate desktop base_name extension) 1 = (r, n)"
    by (simp add: safe_save_path_loop_def)
  then show ?thesis by (rule save_loop_spec)
qed

lemma iterations_bound:
  assumes sp: "splitext candidate = (root, ext)"
    and c: "candidate |\<in>| fs"
    and rest: "\<forall>j. 1 \<le> j \<and> j < m \<longrightarrow> suffixed root j ext |\<in>| fs"
  shows "m \<le> fcard fs"
proof -
  let ?f = "\<lambda>j. if j = 0 then candidate else suffixed root j ext"
  have inj: "inj_on ?f {0..<m}"
    using suffixed_not_first[OF sp] suffixed_inj[of root _ ext]
    by (auto simp: inj_on_def)
  have img: "?f ` {0..<m} \<subseteq> fset fs"
    using c rest by auto
  have "card {0..<m} \<le> card (fset fs)"
    by (rule card_inj_on_le[OF inj img]) simp
  then show ?thesis by (simp add: fcard.rep_eq)
qed

lemma save_name_nonempty: "save_name base_name \<noteq> []"
  by (simp add: save_name_def Let_def)

lemma strip_empty_iff: "strip s = [] \<longleftrightarrow> (\<forall>c\<in>set s. isspace c)"
proof
  assume "strip s = []"
  then have all: "\<forall>c\<in>set (dropWhile isspace s). isspace c"
    by (simp add: strip_def rstrip_def lstrip_def dropWhile_eq_Nil_conv)
  have "dropWhile isspace s = []"
  proof (rule ccontr)
    assume ne: "dropWhile isspace s \<noteq> []"
    then have "\<not> isspace (hd (dropWhile isspace s))" by (rule hd_dropWhile)
    moreover from ne have "hd (dropWhile isspace s) \<in> set (dropWhile isspace s)" by simp
    ultimately show False using all by blast
  qed
  then show "\<forall>c\<in>set s. isspace c" by (simp add: dropWhile_eq_Nil_conv)
next
  assume "\<forall>c\<in>set s. isspace c"
  then show "strip s = []"
    by (auto simp: strip_def rstrip_def lstrip_def dest: set_dropWhileD)
qed

lemma save_name_default: "save_name ''Untitled music video'' = ''Untitled music video''"
  by (simp add: save_name_def strip_def lstrip_def rstrip_def isspace_def)

text \<open>
  C8. Path resolution is idempotent under non-collision: when the candidate
  path, the join of the directory with name + extension, does not exist, that
  exact path is returned, with no suffix.
\<close>

theorem safe_save_path_no_collision:
  assumes "first_candidate desktop base_name extension |\<notin>| fs"
  shows "safe_save_path fs desktop base_name extension =
         path_join desktop (save_name base_name @ extension)"
  using assms
  by (simp add: safe_save_path_def safe_save_path_loop_def Let_def split_beta
        save_loop_fresh_candidate)
     (simp add: first_candidate_def)

theorem safe_save_path_no_collision_witness:
  "first_candidate ''/h/Desktop'' ''Song'' ''.mp4'' |\<notin>| {|''/h/Desktop/Other.mp4''|} \<and>
   safe_save_path {|''/h/Desktop/Other.mp4''|} ''/h/Desktop'' ''Song'' ''.mp4'' = ''/h/Desktop/Song.mp4''"
proof -
  have h: "first_candidate ''/h/Desktop'' ''Song'' ''.mp4'' |\<notin>| {|''/h/Desktop/Other.mp4''|}"
    by (simp add: path_eval)
  show ?thesis
    using h safe_save_path_no_collision [OF h]
    by (simp add: path_eval)
qed

text \<open>
  C10. With the file system a finite set of paths, path resolution terminates
  for every base name and extension. \<open>save_loop\<close> is a total function by its
  termination proof; here, for the root and extension that \<^verbatim>\<open>splitext\<close> finds in
  the first candidate: the candidates \<open>root-1+ext\<close>, \<open>root-2+ext\<close>, ... are
  pairwise different and different from the first candidate, the loop body
  runs at most as many times as there are existing paths (the counter starts
  at 1 and goes up by one each time), and the path returned does not exist.
\<close>

theorem safe_save_path_terminates:
  assumes "splitext (first_candidate desktop base_name extension) = (root, ext)"
  shows "(\<forall>i j. suffixed root i ext = suffixed root j ext \<longrightarrow> i = j) \<and>
         (\<forall>i. suffixed root i ext \<noteq> first_candidate desktop base_name extension) \<and>
         snd (safe_save_path_loop fs desktop base_name extension) - 1 \<le> fcard fs \<and>
         safe_save_path fs desktop base_name extension |\<notin>| fs"
proof -
  obtain r n where run: "safe_save_path_loop fs desktop base_name extension = (r, n)"
    by (cases "safe_save_path_loop fs desktop base_name extension")
  note spec = safe_save_path_loop_spec[OF assms run]
  have "n - 1 \<le> fcard fs"
  proof (cases "first_candidate desktop base_name extension |\<in>| fs")
    case True
    with spec show ?thesis by (intro iterations_bound[OF assms True]) simp
  next
    case False
    with spec show ?thesis by simp
  qed
  moreover from spec have "r |\<notin>| fs" by simp
  ultimately show ?thesis
    using run suffixed_not_first[OF assms] suffixed_inj[of root _ ext]
    by (auto simp: safe_save_path_def)
qed

theorem safe_save_path_terminates_witness:
  "splitext (first_candidate ''/h/Desktop'' ''Song'' ''.mp4'') = (''/h/Desktop/Song'', ''.mp4'') \<and>
   safe_save_path_loop {|''/h/Desktop/Song.mp4'', ''/h/Desktop/Song-1.mp4''|}
       ''/h/Desktop'' ''Song'' ''.mp4'' = (''/h/Desktop/Song-2.mp4'', 3) \<and>
   (3::nat) - 1 \<le> fcard {|''/h/Desktop/Song.mp4'', ''/h/Desktop/Song-1.mp4''|}"
proof -
  have h: "splitext (first_candidate ''/h/Desktop'' ''Song'' ''.mp4'') = (''/h/Desktop/Song'', ''.mp4'')"
    by (simp add: path_eval)
  have l: "safe_save_path_loop {|''/h/Desktop/Song.mp4'', ''/h/Desktop/Song-1.mp4''|}
       ''/h/Desktop'' ''Song'' ''.mp4'' = (''/h/Desktop/Song-2.mp4'', 3)"
    by (simp add: path_eval)
  show ?thesis
    using h l safe_save_path_terminates [OF h, of "{|''/h/Desktop/Song.mp4'', ''/h/Desktop/Song-1.mp4''|}"]
    by simp
qed

text \<open>
  C7. A base name that is empty after trimming white space, the empty string
  among them, is replaced by the literal \<^verbatim>\<open>Untitled music video\<close> before the
  candidate path is built: the candidate and the result are those of that
  name. By \<open>strip_empty_iff\<close> these are the names made of white space only.
\<close>

theorem empty_name_default:
  assumes "strip base_name = []"
  shows "save_name base_name = ''Untitled music video'' \<and>
         first_candidate desktop base_name extension =
           path_join desktop (''Untitled music video'' @ extension) \<and>
         safe_save_path fs desktop base_name extension =
           safe_save_path fs desktop ''Untitled music video'' extension"
proof -
  from assms have "save_name base_name = ''Untitled music video''"
    by (simp add: save_name_def)
  then show ?thesis
    by (simp only: safe_save_path_def safe_save_path_loop_def first_candidate_def
          save_name_default simp_thms)
qed

theorem empty_name_default_witness:
  "strip ''  '' = [] \<and>
   safe_save_path {||} ''/h/Desktop'' ''  '' ''.mp4'' = ''/h/Desktop/Untitled music video.mp4'' \<and>
   safe_save_path {||} ''/h/Desktop'' [] ''.mp4'' = ''/h/Desktop/Untitled music video.mp4''"
proof -
  have h: "strip ''  '' = []"
    by (simp add: strip_def lstrip_def rstrip_def isspace_def)
  have e: "strip [] = []"
    by (simp add: strip_def lstrip_def rstrip_def)
  have d: "safe_save_path {||} ''/h/Desktop'' ''Untitled music video'' ''.mp4'' =
      ''/h/Desktop/Untitled music video.mp4''"
    by (simp add: path_eval)
  show ?thesis
    using h d empty_name_default [OF h, of "''/h/Desktop''" "''.mp4''" "{||}"]
      empty_name_default [OF e, of "''/h/Desktop''" "''.mp4''" "{||}"]
    by simp
qed

text \<open>
  C3, as amended. For every base name and extension the path returned does not
  exist. When the first candidate exists, the result is \<open>root-k+ext\<close> for the
  least \<open>k \<ge> 1\<close> whose candidate does not exist, where \<open>root\<close> and \<open>ext\<close> are
  what \<^verbatim>\<open>os.path.splitext\<close> makes of the first candidate. When the last
  component of the joined directory and name has a character other than a dot
  and the extension is a dot followed by characters other than dot and slash,
  \<open>root-k+ext\<close> is the join of the directory with name, \<open>-k\<close> and the extension:
  the suffix stands before the extension.
\<close>

theorem safe_save_path_collision:
  assumes sp: "splitext (first_candidate desktop base_name extension) = (root, ext)"
  shows "safe_save_path fs desktop base_name extension |\<notin>| fs \<and>
         (first_candidate desktop base_name extension |\<in>| fs \<longrightarrow>
           (\<exists>k\<ge>1. safe_save_path fs desktop base_name extension = suffixed root k ext \<and>
                  (\<forall>j. 1 \<le> j \<and> j < k \<longrightarrow> suffixed root j ext |\<in>| fs))) \<and>
         ((\<exists>c\<in>set (basename (path_join desktop (save_name base_name))). c \<noteq> CHR ''.'') \<and>
          extension = CHR ''.'' # e \<and> CHR ''.'' \<notin> set e \<and> CHR ''/'' \<notin> set e \<longrightarrow>
            (\<forall>k. suffixed root k ext =
                 path_join desktop (save_name base_name @ ''-'' @ str_nat k @ extension)))"
proof (intro conjI impI)
  obtain r n where run: "safe_save_path_loop fs desktop base_name extension = (r, n)"
    by (cases "safe_save_path_loop fs desktop base_name extension")
  note spec = safe_save_path_loop_spec[OF sp run]
  from spec run show "safe_save_path fs desktop base_name extension |\<notin>| fs"
    by (simp add: safe_save_path_def)
  assume "first_candidate desktop base_name extension |\<in>| fs"
  with spec have n: "1 < n" "r = suffixed root (n - 1) ext"
    "\<forall>j. 1 \<le> j \<and> j < n - 1 \<longrightarrow> suffixed root j ext |\<in>| fs"
    by (simp_all del: One_nat_def)
  from n(1) have "1 \<le> n - 1" by simp
  with n run show "\<exists>k\<ge>1. safe_save_path fs desktop base_name extension = suffixed root k ext \<and>
      (\<forall>j. 1 \<le> j \<and> j < k \<longrightarrow> suffixed root j ext |\<in>| fs)"
    by (intro exI[of _ "n - 1"]) (simp add: safe_save_path_def del: One_nat_def)
next
  assume reg: "(\<exists>c\<in>set (basename (path_join desktop (save_name base_name))). c \<noteq> CHR ''.'') \<and>
          extension = CHR ''.'' # e \<and> CHR ''.'' \<notin> set e \<and> CHR ''/'' \<notin> set e"
  let ?r = "path_join desktop (save_name base_name)"
  have "first_candidate desktop base_name extension = ?r @ CHR ''.'' # e"
    using reg by (simp add: first_candidate_def path_join_append[OF save_name_nonempty])
  moreover have "splitext (?r @ CHR ''.'' # e) = (?r, CHR ''.'' # e)"
    using reg by (intro splitext_regular) simp_all
  ultimately have "root = ?r" "ext = extension"
    using sp reg by simp_all
  then show "\<forall>k. suffixed root k ext =
      path_join desktop (save_name base_name @ ''-'' @ str_nat k @ extension)"
    by (simp add: suffixed_def path_join_append[OF save_name_nonempty])
qed

theorem safe_save_path_collision_witness:
  "splitext (first_candidate ''/h/Desktop'' ''Song'' ''.mp4'') = (''/h/Desktop/Song'', ''.mp4'') \<and>
   first_candidate ''/h/Desktop'' ''Song'' ''.mp4'' |\<in>| {|''/h/Desktop/Song.mp4''|} \<and>
   safe_save_path {|''/h/Desktop/Song.mp4''|} ''/h/Desktop'' ''Song'' ''.mp4'' =
     ''/h/Desktop/Song-1.mp4'' \<and>
   safe_save_path {|''/h/Desktop/Song.mp4'', ''/h/Desktop/Song-1.mp4''|} ''/h/Desktop'' ''Song'' ''.mp4'' =
     ''/h/Desktop/Song-2.mp4'' \<and>
   suffixed ''/h/Desktop/Song'' 2 ''.mp4'' =
     path_join ''/h/Desktop'' (save_name ''Song'' @ ''-'' @ str_nat 2 @ ''.mp4'')"
proof -
  have h: "splitext (first_candidate ''/h/Desktop'' ''Song'' ''.mp4'') = (''/h/Desktop/Song'', ''.mp4'')"
    by (simp add: path_eval)
  have c: "first_candidate ''/h/Desktop'' ''Song'' ''.mp4'' |\<in>| {|''/h/Desktop/Song.mp4''|}"
    by (simp add: path_eval)
  have r: "\<exists>c\<in>set (basename (path_join ''/h/Desktop'' (save_name ''Song''))). c \<noteq> CHR ''.''"
    by (simp add: path_eval)
  have s1: "safe_save_path {|''/h/Desktop/Song.mp4''|} ''/h/Desktop'' ''Song'' ''.mp4'' =
     ''/h/Desktop/Song-1.mp4''"
    by (simp add: path_eval)
  have s2: "safe_save_path {|''/h/Desktop/Song.mp4'', ''/h/Desktop/Song-1.mp4''|} ''/h/Desktop'' ''Song'' ''.mp4'' =
     ''/h/Desktop/Song-2.mp4''"
    by (simp add: path_eval)
  from safe_save_path_collision [OF h, of "{|''/h/Desktop/Song.mp4''|}" "''mp4''"] r
  have "suffixed ''/h/Desktop/Song'' 2 ''.mp4'' =
     path_join ''/h/Desktop'' (save_name ''Song'' @ ''-'' @ str_nat 2 @ ''.mp4'')"
    by simp
  with h c s1 s2 show ?thesis by simp
qed

text \<open>
  C3 as stated fails for the base name \<^verbatim>\<open>...\<close>: \<^verbatim>\<open>os.path.splitext\<close> counts
  the leading dots of the last component as part of the root, so the first
  candidate has no extension and the suffix goes after \<^verbatim>\<open>.mp4\<close>.
\<close>

theorem safe_save_path_collision_counterexample:
  "first_candidate ''/h/Desktop'' ''...'' ''.mp4'' |\<in>| {|''/h/Desktop/....mp4''|} \<and>
   safe_save_path {|''/h/Desktop/....mp4''|} ''/h/Desktop'' ''...'' ''.mp4'' = ''/h/Desktop/....mp4-1'' \<and>
   safe_save_path {|''/h/Desktop/....mp4''|} ''/h/Desktop'' ''...'' ''.mp4'' \<noteq>
     path_join ''/h/Desktop'' (''...'' @ ''-'' @ str_nat 1 @ ''.mp4'')"
  by (simp add: path_eval)

section \<open>Properties of the workflow\<close>

lemma or_zero_id: "or_zero x = x"
  by (simp add: or_zero_def)

lemma upt_first: "[n..<Suc (n + k)] = n # [Suc n..<Suc (n + k)]"
  by (simp add: upt_conv_Cons)

lemma load_videos_Inr:
  "load_videos env ps clips tot st = Inr (clips', tot', st') \<Longrightarrow>
     (\<forall>p\<in>set ps. \<not> isl (video_file env p)) \<and>
     map clip_path clips' = map clip_path clips @ ps \<and>
     map duration clips' = map duration clips @ map (\<lambda>p. projr (video_file env p)) ps \<and>
     tot' = tot + sum_list (map (\<lambda>p. projr (video_file env p)) ps) \<and>
     concat (map close_clip clips') =
       concat (map close_clip clips) @ map VideoHandle [length clips..<length clips + length ps] \<and>
     st' = st\<lparr>opened := opened st @ map VideoHandle [length clips..<length clips + length ps]\<rparr>"
proof (induction ps arbitrary: clips tot st)
  case Nil
  then show ?case by simp
next
  case (Cons p ps)
  show ?case
  proof (cases "video_file env p")
    case (Inl e)
    with Cons.prems show ?thesis by simp
  next
    case (Inr d)
    with Cons.prems have "load_videos env ps (clips @ [VideoFileClip (length clips) p d])
        (tot + or_zero d) (st\<lparr>opened := opened st @ [VideoHandle (length clips)]\<rparr>) =
        Inr (clips', tot', st')"
      by simp
    from Cons.IH[OF this] Inr show ?thesis
      by (simp add: or_zero_id upt_first add.assoc del: upt_Suc)
  qed
qed

lemma load_videos_ok:
  "\<forall>p\<in>set ps. \<not> isl (video_file env p) \<Longrightarrow>
   \<exists>clips' tot' st'. load_videos env ps clips tot st = Inr (clips', tot', st')"
proof (induction ps arbitrary: clips tot st)
  case Nil
  then show ?case by simp
next
  case (Cons p ps)
  then obtain d where "video_file env p = Inr d"
    by (cases "video_file env p") auto
  with Cons show ?case by simp
qed

lemma load_videos_first_failure:
  assumes "\<forall>q\<in>set ok. \<not> isl (video_file env q)" and "video_file env p = Inl e"
  shows "load_videos env (ok @ p # rest) clips tot st =
     Inl (print (Line (CHR 0x0A # ''Error loading '' @ basename p @ '' -> '' @ e))
            (st\<lparr>opened := opened st @ map VideoHandle [length clips..<length clips + length ok]\<rparr>))"
  using assms(1)
proof (induction ok arbitrary: clips tot st)
  case Nil
  with assms(2) show ?case by simp
next
  case (Cons q ok)
  then obtain d where "video_file env q = Inr d"
    by (cases "video_file env q") auto
  with Cons show ?case
    by (simp add: upt_first del: upt_Suc)
qed

lemma load_videos_Inl:
  "load_videos env ps clips tot st = Inl st' \<Longrightarrow>
   \<exists>ok p rest e. ps = ok @ p # rest \<and> (\<forall>q\<in>set ok. \<not> isl (video_file env q)) \<and>
     video_file env p = Inl e \<and>
     st' = print (Line (CHR 0x0A # ''Error loading '' @ basename p @ '' -> '' @ e))
            (st\<lparr>opened := opened st @ map VideoHandle [length clips..<length clips + length ok]\<rparr>)"
proof (induction ps arbitrary: clips tot st)
  case Nil
  then show ?case by simp
next
  case (Cons p ps)
  show ?case
  proof (cases "video_file env p")
    case (Inl e)
    with Cons.prems have "st' = print (Line (CHR 0x0A # ''Error loading '' @ basename p @ '' -> '' @ e)) st"
      by simp
    with Inl show ?thesis
      by (intro exI[of _ "[]"] exI[of _ p] exI[of _ ps] exI[of _ e]) simp
  next
    case (Inr d)
    with Cons.prems have "load_videos env ps (clips @ [VideoFileClip (length clips) p d])
        (tot + or_zero d) (st\<lparr>opened := opened st @ [VideoHandle (length clips)]\<rparr>) = Inl st'"
      by simp
    from Cons.IH[OF this] obtain ok q rest e where
      *: "ps = ok @ q # rest" "\<forall>r\<in>set ok. \<not> isl (video_file env r)" "video_file env q = Inl e"
      "st' = print (Line (CHR 0x0A # ''Error loading '' @ basename q @ '' -> '' @ e))
         (st\<lparr>opened := opened st @ [VideoHandle (length clips)],
             opened := opened (st\<lparr>opened := opened st @ [VideoHandle (length clips)]\<rparr>) @
               map VideoHandle [length (clips @ [VideoFileClip (length clips) p d])..<
                 length (clips @ [VideoFileClip (length clips) p d]) + length ok]\<rparr>)"
      by blast
    with Inr show ?thesis
      by (intro exI[of _ "p # ok"] exI[of _ q] exI[of _ rest] exI[of _ e])
         (simp add: upt_first del: upt_Suc)
  qed
qed

lemma lower_y: "lower ''y'' = ''y''" "lower ''Y'' = ''y''" "lower ''n'' \<noteq> ''y''"
  by (simp_all add: lower_def lower_chr_def char_of_def bit_iff_odd drop_bit_eq_div)

lemma main_no_videos:
  "video_dialog env = [] \<Longrightarrow>
   fst (main env) = Cancelled \<and> opened (snd (main env)) = [] \<and> closed (snd (main env)) = [] \<and>
   exports (snd (main env)) = [] \<and> previews (snd (main env)) = [] \<and>
   created (snd (main env)) = []"
  by (simp add: main_def pick_files_def print_def start_def)

lemma main_stdin_end:
  "video_dialog env \<noteq> [] \<Longrightarrow> proceed_input env = None \<Longrightarrow>
   fst (main env) = Uncaught \<and> opened (snd (main env)) = [] \<and> closed (snd (main env)) = [] \<and>
   exports (snd (main env)) = [] \<and> previews (snd (main env)) = [] \<and>
   created (snd (main env)) = []"
  by (simp add: main_def pick_files_def print_def start_def Let_def)

lemma main_declined:
  "video_dialog env \<noteq> [] \<Longrightarrow> proceed_input env = Some a \<Longrightarrow> lower a \<noteq> ''y'' \<Longrightarrow>
   fst (main env) = Cancelled \<and> opened (snd (main env)) = [] \<and> closed (snd (main env)) = [] \<and>
   exports (snd (main env)) = [] \<and> previews (snd (main env)) = [] \<and>
   created (snd (main env)) = []"
  by (simp add: main_def pick_files_def print_def start_def Let_def)

lemma main_loading:
  assumes "video_dialog env \<noteq> []" and "map_option lower (proceed_input env) = Some ''y''"
  obtains st0 where "opened st0 = []" "closed st0 = []" "exports st0 = []" "previews st0 = []"
    "created st0 = []"
    "main env =
      (case load_videos env (video_dialog env) [] 0 st0 of
         Inl st \<Rightarrow> (LoadError, st)
       | Inr (clips, total_dur, st) \<Rightarrow>
           if total_dur \<le> 0
           then (EmptyContentError, print (Line ''Video content is empty.'') st)
           else audio_stage env clips total_dur (print (Total_video_length total_dur) st))"
proof -
  let ?st0 = "print (Line (CHR 0x0A # ''Loading videos...''))
     (print (Prompt (CHR 0x0A # ''Proceed with '' @ str_nat (length (video_dialog env)) @
                       '' video(s)? (y/n): ''))
       (print (Selected (length (video_dialog env)) (map basename (video_dialog env)))
         (print (Line (replicate 70 CHR ''='' @ [CHR 0x0A]))
           (print (Line ''   VIDEO + AUDIO STITCHER - TKINTER VERSION'')
             (print (Line (CHR 0x0A # replicate 70 CHR ''='')) start)))))"
  from assms(2) obtain a where a: "proceed_input env = Some a" "lower a = ''y''"
    by (cases "proceed_input env") auto
  have "opened ?st0 = []" "closed ?st0 = []" "exports ?st0 = []" "previews ?st0 = []"
    "created ?st0 = []"
    by (simp_all add: print_def start_def)
  moreover from assms(1) a have "main env =
      (case load_videos env (video_dialog env) [] 0 ?st0 of
         Inl st \<Rightarrow> (LoadError, st)
       | Inr (clips, total_dur, st) \<Rightarrow>
           if total_dur \<le> 0
           then (EmptyContentError, print (Line ''Video content is empty.'') st)
           else audio_stage env clips total_dur (print (Total_video_length total_dur) st))"
    by (simp add: main_def pick_files_def Let_def)
  ultimately show ?thesis by (rule that)
qed

lemma export_stage_effects:
  assumes "export_stage env clips total_dur audio_path audio_dur st = (oc, st')"
  shows "opened st' = opened st"
    and "name_input env = None \<Longrightarrow>
           oc = Uncaught \<and> closed st' = closed st \<and> exports st' = exports st \<and>
           previews st' = previews st \<and> created st' = created st"
    and "name_input env \<noteq> None \<Longrightarrow>
           \<exists>path final. exports st' = exports st @ [(path, final)] \<and>
             (case export_error env of
                Some e \<Rightarrow>
                  oc = ExportError \<and> last (printed st') = Line (''Export error: '' @ e) \<and>
                  closed st' = closed st \<and> previews st' = previews st \<and>
                  created st' = created st @ (if partial_output env then [path] else [])
              | None \<Rightarrow>
                  oc = Done \<and>
                  (\<exists>more. closed st' =
                     closed st @ concat (map close_clip clips) @ [AudioHandle] @ more) \<and>
                  previews st' = previews st @ [shlex_quote path] \<and>
                  created st' = created st @ [path])"
  using assms
  by (auto simp: export_stage_def Let_def print_def split: option.splits if_splits)

lemma audio_stage_effects:
  assumes "audio_stage env clips total_dur st = (oc, st')"
  shows "audio_dialog env = [] \<Longrightarrow>
           oc = Cancelled \<and> opened st' = opened st \<and> closed st' = closed st \<and>
           exports st' = exports st \<and> previews st' = previews st \<and> created st' = created st"
    and "audio_dialog env \<noteq> [] \<Longrightarrow> audio_file env (audio_dialog env) = Inl e \<Longrightarrow>
           oc = LoadError \<and> last (printed st') = Line (''Audio error: '' @ e) \<and>
           opened st' = opened st \<and> closed st' = closed st \<and>
           exports st' = exports st \<and> previews st' = previews st \<and> created st' = created st"
    and "audio_dialog env \<noteq> [] \<Longrightarrow> audio_file env (audio_dialog env) = Inr d \<Longrightarrow>
           \<exists>st1. export_stage env clips total_dur (audio_dialog env) (or_zero d) st1 = (oc, st') \<and>
             opened st1 = opened st @ [AudioHandle] \<and> closed st1 = closed st \<and>
             exports st1 = exports st \<and> previews st1 = previews st \<and> created st1 = created st"
  using assms
  by (force simp: audio_stage_def pick_file_def pick_files_def Let_def print_def)+

lemma main_loaded:
  assumes "video_dialog env \<noteq> []" and "map_option lower (proceed_input env) = Some ''y''"
  obtains (video_error) ok p rest e where
      "video_dialog env = ok @ p # rest" "\<forall>q\<in>set ok. \<not> isl (video_file env q)"
      "video_file env p = Inl e" "fst (main env) = LoadError"
      "last (printed (snd (main env))) =
         Line (CHR 0x0A # ''Error loading '' @ basename p @ '' -> '' @ e)"
      "opened (snd (main env)) = map VideoHandle [0..<length ok]"
      "closed (snd (main env)) = []" "exports (snd (main env)) = []"
      "previews (snd (main env)) = []" "created (snd (main env)) = []"
  | (loaded) clips total_dur st where
      "\<forall>p\<in>set (video_dialog env). \<not> isl (video_file env p)"
      "map clip_path clips = video_dialog env"
      "map duration clips = map (\<lambda>p. projr (video_file env p)) (video_dialog env)"
      "total_dur = sum_list (map duration clips)"
      "concat (map close_clip clips) = map VideoHandle [0..<length clips]"
      "opened st = map VideoHandle [0..<length clips]"
      "closed st = []" "exports st = []" "previews st = []" "created st = []"
      "main env =
        (if total_dur \<le> 0
         then (EmptyContentError, print (Line ''Video content is empty.'') st)
         else audio_stage env clips total_dur (print (Total_video_length total_dur) st))"
proof -
  from assms obtain st0 where st0: "opened st0 = []" "closed st0 = []" "exports st0 = []"
      "previews st0 = []" "created st0 = []"
    and m: "main env =
      (case load_videos env (video_dialog env) [] 0 st0 of
         Inl st \<Rightarrow> (LoadError, st)
       | Inr (clips, total_dur, st) \<Rightarrow>
           if total_dur \<le> 0
           then (EmptyContentError, print (Line ''Video content is empty.'') st)
           else audio_stage env clips total_dur (print (Total_video_length total_dur) st))"
    by (rule main_loading)
  show ?thesis
  proof (cases "load_videos env (video_dialog env) [] 0 st0")
    case (Inl st)
    from load_videos_Inl[OF Inl] obtain ok p rest e where
      *: "video_dialog env = ok @ p # rest" "\<forall>q\<in>set ok. \<not> isl (video_file env q)"
      "video_file env p = Inl e"
      "st = print (Line (CHR 0x0A # ''Error loading '' @ basename p @ '' -> '' @ e))
            (st0\<lparr>opened := opened st0 @ map VideoHandle [length ([]::clip list)..<length ([]::clip list) + length ok]\<rparr>)"
      by blast
    from m Inl have "main env = (LoadError, st)" by simp
    with *(4) st0 show ?thesis
      by (intro video_error[OF *(1-3)]) (simp_all add: print_def)
  next
    case (Inr r)
    then obtain clips total_dur st where
      l: "load_videos env (video_dialog env) [] 0 st0 = Inr (clips, total_dur, st)"
      by (cases r) auto
    note r = load_videos_Inr[OF l]
    from r have len: "length clips = length (video_dialog env)"
      by (metis length_map append_Nil list.map(1))
    from m l have "main env =
        (if total_dur \<le> 0
         then (EmptyContentError, print (Line ''Video content is empty.'') st)
         else audio_stage env clips total_dur (print (Total_video_length total_dur) st))"
      by simp
    with r st0 len show ?thesis
      by (intro loaded[of clips total_dur st]) simp_all
  qed
qed

lemma leaked_empty: "set (opened st) \<subseteq> set (closed st) \<Longrightarrow> leaked st = []"
  by (auto simp: leaked_def filter_empty_conv)

text \<open>
  Every way through \<^verbatim>\<open>main\<close>, with the outcome and the effects of each. The other
  properties of the workflow are read off from it.
\<close>

lemma main_cases
  [case_names no_videos stdin_end declined video_error empty no_audio audio_error
     stdin_end_name export_error success]:
  obtains
    (no_videos) "video_dialog env = []" "fst (main env) = Cancelled"
      "opened (snd (main env)) = []" "closed (snd (main env)) = []" "exports (snd (main env)) = []"
      "previews (snd (main env)) = []" "created (snd (main env)) = []"
  | (stdin_end) "video_dialog env \<noteq> []" "proceed_input env = None"
      "fst (main env) = Uncaught" "opened (snd (main env)) = []" "closed (snd (main env)) = []" "exports (snd (main env)) = []"
      "previews (snd (main env)) = []" "created (snd (main env)) = []"
  | (declined) a where "video_dialog env \<noteq> []" "proceed_input env = Some a"
      "lower a \<noteq> ''y''"
      "fst (main env) = Cancelled" "opened (snd (main env)) = []" "closed (snd (main env)) = []" "exports (snd (main env)) = []"
      "previews (snd (main env)) = []" "created (snd (main env)) = []"
  | (video_error) ok p rest e where
      "map_option lower (proceed_input env) = Some ''y''"
      "video_dialog env = ok @ p # rest" "\<forall>q\<in>set ok. \<not> isl (video_file env q)"
      "video_file env p = Inl e" "fst (main env) = LoadError"
      "last (printed (snd (main env))) =
         Line (CHR 0x0A # ''Error loading '' @ basename p @ '' -> '' @ e)"
      "opened (snd (main env)) = map VideoHandle [0..<length ok]" "closed (snd (main env)) = []" "exports (snd (main env)) = []"
      "previews (snd (main env)) = []" "created (snd (main env)) = []"
  | (empty) clips where "video_dialog env \<noteq> []" "map_option lower (proceed_input env) = Some ''y''"
      "\<forall>p\<in>set (video_dialog env). \<not> isl (video_file env p)"
      "map clip_path clips = video_dialog env"
      "map duration clips = map (\<lambda>p. projr (video_file env p)) (video_dialog env)"
      "sum_list (map duration clips) \<le> 0" "fst (main env) = EmptyContentError"
      "last (printed (snd (main env))) = Line ''Video content is empty.''"
      "opened (snd (main env)) = map VideoHandle [0..<length clips]" "closed (snd (main env)) = []" "exports (snd (main env)) = []"
      "previews (snd (main env)) = []" "created (snd (main env)) = []"
  | (no_audio) clips where "video_dialog env \<noteq> []" "map_option lower (proceed_input env) = Some ''y''"
      "\<forall>p\<in>set (video_dialog env). \<not> isl (video_file env p)"
      "map clip_path clips = video_dialog env"
      "map duration clips = map (\<lambda>p. projr (video_file env p)) (video_dialog env)"
      "0 < sum_list (map duration clips)" "audio_dialog env = []"
      "fst (main env) = Cancelled"
      "opened (snd (main env)) = map VideoHandle [0..<length clips]" "closed (snd (main env)) = []" "exports (snd (main env)) = []"
      "previews (snd (main env)) = []" "created (snd (main env)) = []"
  | (audio_error) clips e where "video_dialog env \<noteq> []" "map_option lower (proceed_input env) = Some ''y''"
      "\<forall>p\<in>set (video_dialog env). \<not> isl (video_file env p)"
      "map clip_path clips = video_dialog env"
      "map duration clips = map (\<lambda>p. projr (video_file env p)) (video_dialog env)"
      "0 < sum_list (map duration clips)" "audio_dialog env \<noteq> []"
      "audio_file env (audio_dialog env) = Inl e" "fst (main env) = LoadError"
      "last (printed (snd (main env))) = Line (''Audio error: '' @ e)"
      "opened (snd (main env)) = map VideoHandle [0..<length clips]" "closed (snd (main env)) = []" "exports (snd (main env)) = []"
      "previews (snd (main env)) = []" "created (snd (main env)) = []"
  | (stdin_end_name) clips d where "video_dialog env \<noteq> []" "map_option lower (proceed_input env) = Some ''y''"
      "\<forall>p\<in>set (video_dialog env). \<not> isl (video_file env p)"
      "map clip_path clips = video_dialog env"
      "map duration clips = map (\<lambda>p. projr (video_file env p)) (video_dialog env)"
      "0 < sum_list (map duration clips)" "audio_dialog env \<noteq> []"
      "audio_file env (audio_dialog env) = Inr d" "name_input env = None"
      "fst (main env) = Uncaught"
      "opened (snd (main env)) = map VideoHandle [0..<length clips] @ [AudioHandle]" "closed (snd (main env)) = []" "exports (snd (main env)) = []"
      "previews (snd (main env)) = []" "created (snd (main env)) = []"
  | (export_error) clips d e path final where "video_dialog env \<noteq> []" "map_option lower (proceed_input env) = Some ''y''"
      "\<forall>p\<in>set (video_dialog env). \<not> isl (video_file env p)"
      "map clip_path clips = video_dialog env"
      "map duration clips = map (\<lambda>p. projr (video_file env p)) (video_dialog env)"
      "0 < sum_list (map duration clips)" "audio_dialog env \<noteq> []"
      "audio_file env (audio_dialog env) = Inr d" "name_input env \<noteq> None"
      "export_error env = Some e"
      "fst (main env) = ExportError"
      "last (printed (snd (main env))) = Line (''Export error: '' @ e)"
      "opened (snd (main env)) = map VideoHandle [0..<length clips] @ [AudioHandle]"
      "closed (snd (main env)) = []"
      "exports (snd (main env)) = [(path, final)]"
      "previews (snd (main env)) = []"
      "created (snd (main env)) = (if partial_output env then [path] else [])"
  | (success) clips d path final where "video_dialog env \<noteq> []" "map_option lower (proceed_input env) = Some ''y''"
      "\<forall>p\<in>set (video_dialog env). \<not> isl (video_file env p)"
      "map clip_path clips = video_dialog env"
      "map duration clips = map (\<lambda>p. projr (video_file env p)) (video_dialog env)"
      "0 < sum_list (map duration clips)" "audio_dialog env \<noteq> []"
      "audio_file env (audio_dialog env) = Inr d" "name_input env \<noteq> None"
      "export_error env = None"
      "fst (main env) = Done"
      "opened (snd (main env)) = map VideoHandle [0..<length clips] @ [AudioHandle]"
      "leaked (snd (main env)) = []"
      "exports (snd (main env)) = [(path, final)]"
      "previews (snd (main env)) = [shlex_quote path]"
      "created (snd (main env)) = [path]"
proof (cases "video_dialog env = []")
  case True
  with main_no_videos[OF True] show ?thesis by (intro no_videos) simp_all
next
  case videos: False
  show ?thesis
  proof (cases "proceed_input env")
    case None
    with main_stdin_end[OF videos None] videos show ?thesis by (intro stdin_end) simp_all
  next
    case (Some a)
    show ?thesis
    proof (cases "lower a = ''y''")
      case False
      with main_declined[OF videos Some False] videos Some show ?thesis
        by (intro declined[of a]) simp_all
    next
      case True
      with Some have yes: "map_option lower (proceed_input env) = Some ''y''" by simp
      from videos yes show ?thesis
      proof (cases rule: main_loaded)
        case (video_error ok p rest e)
        with yes show ?thesis by (intro that(4)[of ok p rest e]) simp_all
      next
        case (loaded clips total_dur st)
        note L = videos yes loaded(1,2,3)
        show ?thesis
        proof (cases "total_dur \<le> 0")
          case True
          with loaded(11) have "main env =
              (EmptyContentError, print (Line ''Video content is empty.'') st)"
            by simp
          with loaded True show ?thesis
            by (intro empty[OF L]) (simp_all add: print_def)
        next
          case False
          with loaded(4) have pos: "0 < sum_list (map duration clips)" by simp
          obtain oc st' where a: "audio_stage env clips total_dur
              (print (Total_video_length total_dur) st) = (oc, st')"
            by (cases "audio_stage env clips total_dur (print (Total_video_length total_dur) st)")
          with loaded(11) False have m: "main env = (oc, st')" by simp
          note A = audio_stage_effects[OF a]
          show ?thesis
          proof (cases "audio_dialog env = []")
            case True
            from A(1)[OF True] m loaded show ?thesis
              by (intro no_audio[OF L pos True]) (simp_all add: print_def)
          next
            case audio: False
            show ?thesis
            proof (cases "audio_file env (audio_dialog env)")
              case (Inl e)
              from A(2)[OF audio Inl] m loaded show ?thesis
                by (intro audio_error[OF L pos audio Inl]) (simp_all add: print_def)
            next
              case (Inr d)
              from A(3)[OF audio Inr] obtain st1 where
                e: "export_stage env clips total_dur (audio_dialog env) (or_zero d) st1 = (oc, st')"
                and st1: "opened st1 = opened (print (Total_video_length total_dur) st) @ [AudioHandle]"
                  "closed st1 = closed (print (Total_video_length total_dur) st)"
                  "exports st1 = exports (print (Total_video_length total_dur) st)"
                  "previews st1 = previews (print (Total_video_length total_dur) st)"
                  "created st1 = created (print (Total_video_length total_dur) st)"
                by blast
              note E = export_stage_effects[OF e]
              show ?thesis
              proof (cases "name_input env")
                case None
                from E(2)[OF None] E(1) m st1 loaded show ?thesis
                  by (intro stdin_end_name[OF L pos audio Inr None]) (simp_all add: print_def)
              next
                case name: (Some line)
                then have nm: "name_input env \<noteq> None" by simp
                from E(3)[OF nm] obtain path final where
                  x: "exports st' = exports st1 @ [(path, final)]"
                  and c: "case export_error env of
                    Some e \<Rightarrow>
                      oc = ExportError \<and> last (printed st') = Line (''Export error: '' @ e) \<and>
                      closed st' = closed st1 \<and> previews st' = previews st1 \<and>
                      created st' = created st1 @ (if partial_output env then [path] else [])
                  | None \<Rightarrow>
                      oc = Done \<and>
                      (\<exists>more. closed st' =
                         closed st1 @ concat (map close_clip clips) @ [AudioHandle] @ more) \<and>
                      previews st' = previews st1 @ [shlex_quote path] \<and>
                      created st' = created st1 @ [path]"
                  by blast
                show ?thesis
                proof (cases "export_error env")
                  case (Some e)
                  from c Some E(1) x m st1 loaded show ?thesis
                    by (intro export_error[OF L pos audio Inr nm Some, of path final])
                       (simp_all add: print_def)
                next
                  case None
                  from c None obtain more where
                    cl: "closed st' =
                      closed st1 @ concat (map close_clip clips) @ [AudioHandle] @ more"
                    by auto
                  from cl E(1) st1 loaded
                  have "set (opened st') \<subseteq> set (closed st')" by (auto simp: print_def)
                  then have "leaked st' = []" by (rule leaked_empty)
                  with c None E(1) x m st1 loaded show ?thesis
                    by (intro success[OF L pos audio Inr nm None, of path final])
                       (simp_all add: print_def)
                qed
              qed
            qed
          qed
        qed
      qed
    qed
  qed
qed


lemma main_video_error:
  assumes "map_option lower (proceed_input env) = Some ''y''"
    and "video_dialog env = ok @ p # rest"
    and "\<forall>q\<in>set ok. \<not> isl (video_file env q)" and "video_file env p = Inl e"
  shows "fst (main env) = LoadError"
    and "last (printed (snd (main env))) =
           Line (CHR 0x0A # ''Error loading '' @ basename p @ '' -> '' @ e)"
    and "opened (snd (main env)) = map VideoHandle [0..<length ok]"
    and "closed (snd (main env)) = []"
    and "exports (snd (main env)) = []" and "previews (snd (main env)) = []"
    and "created (snd (main env)) = []"
proof -
  from assms(2) have ne: "video_dialog env \<noteq> []" by simp
  from ne assms(1) obtain st0 where st0: "opened st0 = []" "closed st0 = []" "exports st0 = []"
      "previews st0 = []" "created st0 = []"
    and m: "main env =
      (case load_videos env (video_dialog env) [] 0 st0 of
         Inl st \<Rightarrow> (LoadError, st)
       | Inr (clips, total_dur, st) \<Rightarrow>
           if total_dur \<le> 0
           then (EmptyContentError, print (Line ''Video content is empty.'') st)
           else audio_stage env clips total_dur (print (Total_video_length total_dur) st))"
    by (rule main_loading)
  from m assms(2) load_videos_first_failure[OF assms(3,4), of rest "[]" 0 st0]
  have "main env = (LoadError,
      print (Line (CHR 0x0A # ''Error loading '' @ basename p @ '' -> '' @ e))
        (st0\<lparr>opened := opened st0 @ map VideoHandle [0..<length ok]\<rparr>))"
    by simp
  with st0 show "fst (main env) = LoadError"
    and "last (printed (snd (main env))) =
           Line (CHR 0x0A # ''Error loading '' @ basename p @ '' -> '' @ e)"
    and "opened (snd (main env)) = map VideoHandle [0..<length ok]"
    and "closed (snd (main env)) = []"
    and "exports (snd (main env)) = []" and "previews (snd (main env)) = []"
    and "created (snd (main env)) = []"
    by (simp_all add: print_def)
qed

lemma sublist_middle: "sublist xs (ps @ xs @ ss)"
  by (auto simp: sublist_def)

lemma scenario_A_path:
  "safe_save_path {||} ''/h/Desktop'' ''song music video'' ''.mp4'' =
     ''/h/Desktop/song music video.mp4''"
  by (simp add: path_eval)

lemma scenario_A_name: "fst (splitext (basename ''/m/song.mp3'')) = ''song''"
  by (simp add: path_eval)

lemma strip_Nil: "strip [] = []"
  by (simp add: strip_def lstrip_def rstrip_def)

lemma loop_count_A: "loop_count 25 20 = 2"
  by (simp add: loop_count_def ceiling_eq_iff)

text \<open>The equations that evaluate a run of scenario A and of its variants.\<close>

lemmas run_eval =
  main_def audio_stage_def export_stage_def pick_files_def pick_file_def print_def start_def
  fit_to_audio_def list_times_def or_zero_def leaked_def Let_def lower_y
  scenario_A_path scenario_A_name strip_Nil loop_count_A

text \<open>
  C4. When the selected videos all load and their total duration is at most 0,
  the run ends with the empty-content outcome right after the message
  \<^verbatim>\<open>Video content is empty.\<close>: nothing is exported, nothing previewed, and no
  file is put on disk.
\<close>

theorem empty_content_aborts:
  assumes "video_dialog env \<noteq> []" and "map_option lower (proceed_input env) = Some ''y''"
    and "\<forall>p\<in>set (video_dialog env). \<not> isl (video_file env p)"
    and "sum_list (map (\<lambda>p. projr (video_file env p)) (video_dialog env)) \<le> 0"
  shows "fst (main env) = EmptyContentError \<and>
         last (printed (snd (main env))) = Line ''Video content is empty.'' \<and>
         exports (snd (main env)) = [] \<and>
         previews (snd (main env)) = [] \<and>
         created (snd (main env)) = []"
  using assms by (cases rule: main_cases[of env]) auto

theorem empty_content_aborts_witness:
  "video_dialog scenario_E \<noteq> [] \<and> map_option lower (proceed_input scenario_E) = Some ''y'' \<and>
   \<not> isl (video_file scenario_E ''/v/a.mp4'') \<and> \<not> isl (video_file scenario_E ''/v/b.mp4'') \<and>
   sum_list (map (\<lambda>p. projr (video_file scenario_E p)) (video_dialog scenario_E)) \<le> 0 \<and>
   fst (main scenario_E) = EmptyContentError \<and> exports (snd (main scenario_E)) = [] \<and>
   created (snd (main scenario_E)) = []"
proof -
  have h: "video_dialog scenario_E \<noteq> []"
    "map_option lower (proceed_input scenario_E) = Some ''y''"
    "\<forall>p\<in>set (video_dialog scenario_E). \<not> isl (video_file scenario_E p)"
    "sum_list (map (\<lambda>p. projr (video_file scenario_E p)) (video_dialog scenario_E)) \<le> 0"
    by (simp_all add: scenario_E_def scenario_A_def lower_y)
  from empty_content_aborts [OF h] h show ?thesis
    by (simp add: scenario_E_def scenario_A_def)
qed

text \<open>
  C5, as amended. On the success path every reader opened during the run, one
  for each video and one for the audio, is closed before the run ends. When
  the user cancels the video selection or declines the confirmation, no reader
  has been opened. On every other path nothing is closed.
\<close>

theorem handles_closed_on_success:
  "(fst (main env) = Done \<longrightarrow>
      leaked (snd (main env)) = [] \<and>
      opened (snd (main env)) =
        map VideoHandle [0..<length (video_dialog env)] @ [AudioHandle]) \<and>
   (video_dialog env = [] \<or> (\<exists>a. proceed_input env = Some a \<and> lower a \<noteq> ''y'') \<longrightarrow>
      fst (main env) = Cancelled \<and> opened (snd (main env)) = []) \<and>
   (fst (main env) \<noteq> Done \<longrightarrow> closed (snd (main env)) = [])"
proof (cases rule: main_cases[of env])
  case (success clips d path final)
  from success(4) have "length clips = length (video_dialog env)"
    by (metis length_map)
  with success show ?thesis by auto
qed auto

theorem handles_closed_on_success_witness:
  "fst (main scenario_A) = Done \<and> leaked (snd (main scenario_A)) = [] \<and>
   opened (snd (main scenario_A)) = [VideoHandle 0, VideoHandle 1, AudioHandle] \<and>
   video_dialog (scenario_A\<lparr>video_dialog := []\<rparr>) = [] \<and>
   opened (snd (main (scenario_A\<lparr>video_dialog := []\<rparr>))) = [] \<and>
   fst (main export_fails) \<noteq> Done \<and> closed (snd (main export_fails)) = []"
proof -
  have a: "fst (main scenario_A) = Done"
    by (simp add: scenario_A_def run_eval)
  have b: "video_dialog (scenario_A\<lparr>video_dialog := []\<rparr>) = []" by simp
  have c: "fst (main export_fails) \<noteq> Done"
    by (simp add: export_fails_def scenario_A_def run_eval)
  have o: "opened (snd (main scenario_A)) = [VideoHandle 0, VideoHandle 1, AudioHandle]"
    by (simp add: scenario_A_def run_eval)
  from a b c o handles_closed_on_success [of scenario_A]
    handles_closed_on_success [of "scenario_A\<lparr>video_dialog := []\<rparr>"]
    handles_closed_on_success [of export_fails]
  show ?thesis by simp
qed

text \<open>
  C5 as stated fails: when the export raises, and when the audio selection is
  cancelled, the run returns with the readers opened so far still open.
\<close>

theorem handles_closed_counterexample:
  "fst (main (scenario_A\<lparr>export_error := Some ''boom''\<rparr>)) = ExportError \<and>
   leaked (snd (main (scenario_A\<lparr>export_error := Some ''boom''\<rparr>))) =
     [VideoHandle 0, VideoHandle 1, AudioHandle] \<and>
   fst (main (scenario_A\<lparr>audio_dialog := []\<rparr>)) = Cancelled \<and>
   leaked (snd (main (scenario_A\<lparr>audio_dialog := []\<rparr>))) = [VideoHandle 0, VideoHandle 1]"
  by (simp add: scenario_A_def run_eval)

text \<open>
  C6, as amended. A video load error, an audio load error and an export error
  are each caught and end the run with no retry: the loading loop stops at the
  first failing file and nothing is exported; an audio load error ends the run
  before any export; an export error ends it after the one export call, with
  no preview. The message printed last names the offending file, by its base
  name, for a video load error; for an audio load error and an export error it
  is a fixed prefix followed by the text of the exception. A load error leaves
  no output file. After an export error the run removes nothing: the output
  file is on disk exactly when the failed export had already created it.
\<close>

theorem errors_are_fatal:
  "(map_option lower (proceed_input env) = Some ''y'' \<and> video_dialog env = ok @ p # rest \<and>
    (\<forall>q\<in>set ok. \<not> isl (video_file env q)) \<and> video_file env p = Inl e1 \<longrightarrow>
      fst (main env) = LoadError \<and>
      last (printed (snd (main env))) =
        Line (CHR 0x0A # ''Error loading '' @ basename p @ '' -> '' @ e1) \<and>
      sublist (basename p) (CHR 0x0A # ''Error loading '' @ basename p @ '' -> '' @ e1) \<and>
      opened (snd (main env)) = map VideoHandle [0..<length ok] \<and>
      exports (snd (main env)) = [] \<and> previews (snd (main env)) = [] \<and>
      created (snd (main env)) = []) \<and>
   (video_dialog env \<noteq> [] \<and> map_option lower (proceed_input env) = Some ''y'' \<and>
    (\<forall>q\<in>set (video_dialog env). \<not> isl (video_file env q)) \<and>
    0 < sum_list (map (\<lambda>q. projr (video_file env q)) (video_dialog env)) \<and>
    audio_dialog env \<noteq> [] \<and> audio_file env (audio_dialog env) = Inl e2 \<longrightarrow>
      fst (main env) = LoadError \<and>
      last (printed (snd (main env))) = Line (''Audio error: '' @ e2) \<and>
      exports (snd (main env)) = [] \<and> previews (snd (main env)) = [] \<and>
      created (snd (main env)) = []) \<and>
   (video_dialog env \<noteq> [] \<and> map_option lower (proceed_input env) = Some ''y'' \<and>
    (\<forall>q\<in>set (video_dialog env). \<not> isl (video_file env q)) \<and>
    0 < sum_list (map (\<lambda>q. projr (video_file env q)) (video_dialog env)) \<and>
    audio_dialog env \<noteq> [] \<and> audio_file env (audio_dialog env) = Inr d \<and>
    name_input env \<noteq> None \<and> export_error env = Some e3 \<longrightarrow>
      fst (main env) = ExportError \<and>
      last (printed (snd (main env))) = Line (''Export error: '' @ e3) \<and>
      length (exports (snd (main env))) = 1 \<and> previews (snd (main env)) = [] \<and>
      created (snd (main env)) =
        (if partial_output env then map fst (exports (snd (main env))) else []))"
proof (intro conjI impI)
  assume "map_option lower (proceed_input env) = Some ''y'' \<and> video_dialog env = ok @ p # rest \<and>
    (\<forall>q\<in>set ok. \<not> isl (video_file env q)) \<and> video_file env p = Inl e1"
  then have h: "map_option lower (proceed_input env) = Some ''y''"
    "video_dialog env = ok @ p # rest"
    "\<forall>q\<in>set ok. \<not> isl (video_file env q)" "video_file env p = Inl e1"
    by simp_all
  note r = main_video_error[OF h]
  show "fst (main env) = LoadError" by (rule r)
  show "last (printed (snd (main env))) =
        Line (CHR 0x0A # ''Error loading '' @ basename p @ '' -> '' @ e1)" by (rule r)
  show "sublist (basename p) (CHR 0x0A # ''Error loading '' @ basename p @ '' -> '' @ e1)"
    using sublist_middle[of "basename p" "CHR 0x0A # ''Error loading ''" "'' -> '' @ e1"]
    by simp
  show "opened (snd (main env)) = map VideoHandle [0..<length ok]" by (rule r)
  show "exports (snd (main env)) = []" by (rule r)
  show "previews (snd (main env)) = []" by (rule r)
  show "created (snd (main env)) = []" by (rule r)
next
  assume h: "video_dialog env \<noteq> [] \<and> map_option lower (proceed_input env) = Some ''y'' \<and>
    (\<forall>q\<in>set (video_dialog env). \<not> isl (video_file env q)) \<and>
    0 < sum_list (map (\<lambda>q. projr (video_file env q)) (video_dialog env)) \<and>
    audio_dialog env \<noteq> [] \<and> audio_file env (audio_dialog env) = Inl e2"
  then have "fst (main env) = LoadError \<and>
      last (printed (snd (main env))) = Line (''Audio error: '' @ e2) \<and>
      exports (snd (main env)) = [] \<and> previews (snd (main env)) = [] \<and>
      created (snd (main env)) = []"
    by (cases rule: main_cases[of env]) auto
  then show "fst (main env) = LoadError"
    and "last (printed (snd (main env))) = Line (''Audio error: '' @ e2)"
    and "exports (snd (main env)) = []" and "previews (snd (main env)) = []"
    and "created (snd (main env)) = []"
    by simp_all
next
  assume h: "video_dialog env \<noteq> [] \<and> map_option lower (proceed_input env) = Some ''y'' \<and>
    (\<forall>q\<in>set (video_dialog env). \<not> isl (video_file env q)) \<and>
    0 < sum_list (map (\<lambda>q. projr (video_file env q)) (video_dialog env)) \<and>
    audio_dialog env \<noteq> [] \<and> audio_file env (audio_dialog env) = Inr d \<and>
    name_input env \<noteq> None \<and> export_error env = Some e3"
  then have "fst (main env) = ExportError \<and>
      last (printed (snd (main env))) = Line (''Export error: '' @ e3) \<and>
      length (exports (snd (main env))) = 1 \<and> previews (snd (main env)) = [] \<and>
      created (snd (main env)) =
        (if partial_output env then map fst (exports (snd (main env))) else [])"
    by (cases rule: main_cases[of env]) auto
  then show "fst (main env) = ExportError"
    and "last (printed (snd (main env))) = Line (''Export error: '' @ e3)"
    and "length (exports (snd (main env))) = 1" and "previews (snd (main env)) = []"
    and "created (snd (main env)) =
        (if partial_output env then map fst (exports (snd (main env))) else [])"
    by simp_all
qed

theorem errors_are_fatal_witness:
  "fst (main video_b_fails) = LoadError \<and>
   last (printed (snd (main video_b_fails))) =
     Line (CHR 0x0A # ''Error loading b.mp4 -> boom'') \<and>
   opened (snd (main video_b_fails)) = [VideoHandle 0] \<and>
   fst (main audio_fails) = LoadError \<and>
   last (printed (snd (main audio_fails))) = Line ''Audio error: boom'' \<and>
   created (snd (main audio_fails)) = [] \<and>
   fst (main export_fails) = ExportError \<and>
   last (printed (snd (main export_fails))) = Line ''Export error: boom'' \<and>
   length (exports (snd (main export_fails))) = 1 \<and>
   created (snd (main export_fails)) = []"
proof -
  have v: "map_option lower (proceed_input video_b_fails) = Some ''y'' \<and>
      video_dialog video_b_fails = [''/v/a.mp4''] @ ''/v/b.mp4'' # [] \<and>
      (\<forall>q\<in>set [''/v/a.mp4'']. \<not> isl (video_file video_b_fails q)) \<and>
      video_file video_b_fails ''/v/b.mp4'' = Inl ''boom''"
    by (simp add: video_b_fails_def scenario_A_def lower_y)
  have a: "video_dialog audio_fails \<noteq> [] \<and>
      map_option lower (proceed_input audio_fails) = Some ''y'' \<and>
      (\<forall>q\<in>set (video_dialog audio_fails). \<not> isl (video_file audio_fails q)) \<and>
      0 < sum_list (map (\<lambda>q. projr (video_file audio_fails q)) (video_dialog audio_fails)) \<and>
      audio_dialog audio_fails \<noteq> [] \<and>
      audio_file audio_fails (audio_dialog audio_fails) = Inl ''boom''"
    by (simp add: audio_fails_def scenario_A_def lower_y)
  have x: "video_dialog export_fails \<noteq> [] \<and>
      map_option lower (proceed_input export_fails) = Some ''y'' \<and>
      (\<forall>q\<in>set (video_dialog export_fails). \<not> isl (video_file export_fails q)) \<and>
      0 < sum_list (map (\<lambda>q. projr (video_file export_fails q)) (video_dialog export_fails)) \<and>
      audio_dialog export_fails \<noteq> [] \<and>
      audio_file export_fails (audio_dialog export_fails) = Inr 25 \<and>
      name_input export_fails \<noteq> None \<and>
      export_error export_fails = Some ''boom''"
    by (simp add: export_fails_def scenario_A_def lower_y)
  have b: "basename ''/v/b.mp4'' = ''b.mp4''"
    by (simp add: basename_def)
  have q: "\<not> partial_output export_fails"
    by (simp add: export_fails_def scenario_A_def)
  from v a x b q
    errors_are_fatal [of video_b_fails "[''/v/a.mp4'']" "''/v/b.mp4''" "[]" "''boom''"]
    errors_are_fatal [of audio_fails _ _ _ _ "''boom''"]
    errors_are_fatal [of export_fails _ _ _ _ _ 25 "''boom''"]
  show ?thesis by simp
qed

text \<open>
  C6 as stated fails twice. The message of an audio load error holds the text
  of the exception only, not the name of the audio file. And when the export
  raises after it has started to write the output file, the run returns with
  that partial file left on disk.
\<close>

theorem errors_are_fatal_counterexample:
  "audio_file audio_fails (audio_dialog audio_fails) = Inl ''boom'' \<and>
   fst (main audio_fails) = LoadError \<and>
   last (printed (snd (main audio_fails))) = Line ''Audio error: boom'' \<and>
   basename (audio_dialog audio_fails) = ''song.mp3'' \<and>
   \<not> sublist ''song.mp3'' ''Audio error: boom'' \<and>
   export_error export_fails_midway = Some ''boom'' \<and>
   partial_output export_fails_midway \<and>
   fst (main export_fails_midway) = ExportError \<and>
   created (snd (main export_fails_midway)) = [''/h/Desktop/song music video.mp4'']"
proof -
  have "basename (audio_dialog audio_fails) = ''song.mp3''"
    by (simp add: audio_fails_def scenario_A_def basename_def)
  moreover have "\<not> sublist ''song.mp3'' ''Audio error: boom''"
    by (simp add: sublist_Cons_right)
  moreover have "audio_file audio_fails (audio_dialog audio_fails) = Inl ''boom'' \<and>
      fst (main audio_fails) = LoadError \<and>
      last (printed (snd (main audio_fails))) = Line ''Audio error: boom''"
    by (simp add: audio_fails_def scenario_A_def run_eval)
  moreover have "export_error export_fails_midway = Some ''boom'' \<and>
      partial_output export_fails_midway \<and>
      fst (main export_fails_midway) = ExportError \<and>
      created (snd (main export_fails_midway)) = [''/h/Desktop/song music video.mp4'']"
    by (simp add: export_fails_midway_def scenario_A_def run_eval)
  ultimately show ?thesis by simp
qed




end
